theory Spec2Isabelle
  imports Complex_Main
begin

section \<open>The spring-mass simulator of \<^verbatim>\<open>main.py\<close>\<close>

text \<open>
  The class \<^verbatim>\<open>SpringMassSystem\<close> holds the physical state of a damped oscillator, its
  parameters, and two bounded deques with the recorded velocity trace.  The embedding
  keeps the attributes that the simulation reads and writes; the matplotlib artists
  (figure, axes, lines, sliders, button) are not part of the state.

  Python floats are modelled as \<^typ>\<open>real\<close>: every arithmetic operation is exact, so
  rounding, infinities and NaN are outside this first model.  Division of a Python
  float by zero raises \<^verbatim>\<open>ZeroDivisionError\<close>; that is a branch of the model.  A second
  embedding further down repeats the state and the frame in binary64 arithmetic, for
  the property of the elapsed time that depends on rounding.
\<close>

datatype py_error = ZeroDivisionError | IndexError | ValueError

subsection \<open>Class attributes and instance state\<close>

definition default_x_pos :: real where
  "default_x_pos = 2.0"

definition max_points :: nat where
  "max_points = 500"

record SpringMassSystem =
  mass :: real
  resilience :: real
  damping :: real
  current_time :: real
  dt :: real
  time_modifier :: real
  x_position :: real
  velocity :: real
  time_data :: "real list"
  velocity_data :: "real list"
  velocity_plot_active :: bool

text \<open>
  \<^verbatim>\<open>collections.deque(maxlen=n)\<close> as a list, oldest element first.  \<^verbatim>\<open>append\<close> adds
  on the right and, when the length then exceeds \<^verbatim>\<open>maxlen\<close>, drops one element on the
  left; \<^verbatim>\<open>clear\<close> empties it.
\<close>

definition deque_append :: "nat \<Rightarrow> 'a list \<Rightarrow> 'a \<Rightarrow> 'a list" where
  "deque_append maxlen d x = (let d = d @ [x] in if length d > maxlen then tl d else d)"

definition deque_clear :: "'a list \<Rightarrow> 'a list" where
  "deque_clear d = []"

text \<open>\<^verbatim>\<open>__init__\<close>, without \<^verbatim>\<open>setup_plot\<close>.\<close>

definition SpringMassSystem_init :: SpringMassSystem where
  "SpringMassSystem_init =
     \<lparr> mass = 1.0, resilience = 10.0, damping = 0.5,
       current_time = 0, dt = 0.02, time_modifier = 1.0,
       x_position = default_x_pos, velocity = 0.0,
       time_data = [], velocity_data = [],
       velocity_plot_active = True \<rparr>"

subsection \<open>Slider and button callbacks\<close>

definition update_mass :: "SpringMassSystem \<Rightarrow> real \<Rightarrow> SpringMassSystem" where
  "update_mass self v = self\<lparr>mass := v\<rparr>"

definition update_resilience :: "SpringMassSystem \<Rightarrow> real \<Rightarrow> SpringMassSystem" where
  "update_resilience self v = self\<lparr>resilience := v\<rparr>"

definition update_damping :: "SpringMassSystem \<Rightarrow> real \<Rightarrow> SpringMassSystem" where
  "update_damping self v = self\<lparr>damping := v\<rparr>"

definition update_time_modifier :: "SpringMassSystem \<Rightarrow> real \<Rightarrow> SpringMassSystem" where
  "update_time_modifier self v = self\<lparr>time_modifier := v\<rparr>"

text \<open>The button event that \<^verbatim>\<open>reset\<close> receives is not read.\<close>

type_synonym button_event = unit

definition reset :: "SpringMassSystem \<Rightarrow> button_event \<Rightarrow> SpringMassSystem" where
  "reset self event =
     (let self = self\<lparr>x_position := default_x_pos\<rparr>;
          self = self\<lparr>velocity := 0.0\<rparr>;
          self = self\<lparr>current_time := 0\<rparr>;
          self = self\<lparr>time_data := deque_clear (time_data self)\<rparr>;
          self = self\<lparr>velocity_data := deque_clear (velocity_data self)\<rparr>;
          self = self\<lparr>velocity_plot_active := True\<rparr>
      in self)"

subsection \<open>The animation frame\<close>

text \<open>
  \<^verbatim>\<open>update\<close> is the frame callback of \<^verbatim>\<open>FuncAnimation\<close>; the frame number is not
  read.  The division by \<^verbatim>\<open>self.mass\<close> is the first statement, so a zero mass raises
  before any attribute is written.
\<close>

definition update :: "SpringMassSystem \<Rightarrow> nat \<Rightarrow> py_error + SpringMassSystem" where
  "update self frame =
     (if mass self = 0 then Inl ZeroDivisionError
      else
        let acceleration =
              (- resilience self * x_position self - damping self * velocity self) / mass self;
            effective_dt = dt self * time_modifier self;
            self = self\<lparr>velocity := velocity self + acceleration * effective_dt\<rparr>;
            self = self\<lparr>x_position := x_position self + velocity self * effective_dt\<rparr>;
            self = self\<lparr>current_time := current_time self + effective_dt\<rparr>;
            self =
              (if velocity_plot_active self then
                 if current_time self \<le> 10 then
                   let self = self\<lparr>time_data :=
                                deque_append max_points (time_data self) (current_time self)\<rparr>;
                       self = self\<lparr>velocity_data :=
                                deque_append max_points (velocity_data self) (velocity self)\<rparr>
                   in self
                 else self\<lparr>velocity_plot_active := False\<rparr>
               else self)
        in Inr self)"

subsection \<open>The spring geometry\<close>

text \<open>
  \<^verbatim>\<open>numpy.linspace(start, stop, num)\<close> with the default \<^verbatim>\<open>endpoint=True\<close>: the step is
  \<^verbatim>\<open>(stop - start) / (num - 1)\<close>, the samples are \<^verbatim>\<open>arange(num) * step + start\<close>, and
  the last sample is overwritten with \<^verbatim>\<open>stop\<close> when there is more than one.
\<close>

definition linspace :: "real \<Rightarrow> real \<Rightarrow> nat \<Rightarrow> real list" where
  "linspace start stop num =
     (let divisor = num - 1;
          step = (stop - start) / real divisor;
          y = map (\<lambda>i. real i * step + start) [0..<num]
      in if num > 1 then y[num - 1 := stop] else y)"

text \<open>The numpy array operations of \<^verbatim>\<open>create_spring\<close> act element by element.\<close>

definition create_spring :: "SpringMassSystem \<Rightarrow> real \<Rightarrow> real list \<times> real list" where
  "create_spring self x =
     (let num_coils = 6;
          coil_radius = 0.2;
          t = linspace 0 1 100;
          spring_x = map (\<lambda>ti. ti * x) t;
          spring_y = map (\<lambda>ti. coil_radius * sin (2 * pi * num_coils * ti)) t
      in (spring_x, spring_y))"

subsection \<open>The cursor on the velocity plot\<close>

text \<open>
  The builtin \<^verbatim>\<open>min\<close> keeps the first of several equal smallest items and raises
  \<^verbatim>\<open>ValueError\<close> on an empty list; \<^verbatim>\<open>list.index\<close> returns the first position of a
  value and raises \<^verbatim>\<open>ValueError\<close> when the value is absent.
\<close>

fun py_min :: "real list \<Rightarrow> py_error + real" where
  "py_min [] = Inl ValueError"
| "py_min (x # xs) = Inr (foldl (\<lambda>m y. if y < m then y else m) x xs)"

fun py_index :: "real list \<Rightarrow> real \<Rightarrow> py_error + nat" where
  "py_index [] v = Inl ValueError"
| "py_index (x # xs) v =
     (if x = v then Inr 0
      else case py_index xs v of Inl e \<Rightarrow> Inl e | Inr i \<Rightarrow> Inr (Suc i))"

datatype axes = main_plot | velocity_plot

record mouse_event =
  inaxes :: "axes option"
  xdata :: real

text \<open>
  \<^verbatim>\<open>on_mouse_move\<close> returns nothing; what it leaves behind is the cursor point.  The
  model returns that point: \<open>Some (time, velocity)\<close> when the cursor is made visible,
  \<open>None\<close> when it is hidden.
\<close>

definition on_mouse_move ::
  "SpringMassSystem \<Rightarrow> mouse_event \<Rightarrow> py_error + (real \<times> real) option" where
  "on_mouse_move self event =
     (if inaxes event = Some velocity_plot then
        let line_x = time_data self;
            line_y = velocity_data self
        in if line_x = [] \<or> line_y = [] then Inr None
           else
             let x = xdata event;
                 distances = map (\<lambda>x_point. \<bar>x_point - x\<bar>) line_x
             in case py_min distances of
                  Inl e \<Rightarrow> Inl e
                | Inr m \<Rightarrow>
                    (case py_index distances m of
                       Inl e \<Rightarrow> Inl e
                     | Inr nearest_idx \<Rightarrow>
                         if nearest_idx < length line_x \<and> nearest_idx < length line_y
                         then Inr (Some (line_x ! nearest_idx, line_y ! nearest_idx))
                         else Inl IndexError)
      else Inr None)"

subsection \<open>The event loop\<close>

text \<open>
  \<^verbatim>\<open>setup_plot\<close> connects the sliders, the button and the mouse to the methods above,
  and \<^verbatim>\<open>animate\<close> lets \<^verbatim>\<open>FuncAnimation\<close> call \<^verbatim>\<open>update\<close> for every frame.  All of
  them run on one thread, one call after the other.
\<close>

datatype call =
    Frame nat
  | ResetClicked button_event
  | MassChanged real
  | ResilienceChanged real
  | DampingChanged real
  | TimeChanged real
  | MouseMoved mouse_event

fun dispatch :: "call \<Rightarrow> SpringMassSystem \<Rightarrow> py_error + SpringMassSystem" where
  "dispatch (Frame n) self = update self n"
| "dispatch (ResetClicked ev) self = Inr (reset self ev)"
| "dispatch (MassChanged v) self = Inr (update_mass self v)"
| "dispatch (ResilienceChanged v) self = Inr (update_resilience self v)"
| "dispatch (DampingChanged v) self = Inr (update_damping self v)"
| "dispatch (TimeChanged v) self = Inr (update_time_modifier self v)"
| "dispatch (MouseMoved ev) self =
     (case on_mouse_move self ev of Inl e \<Rightarrow> Inl e | Inr p \<Rightarrow> Inr self)"

text \<open>A sequence of calls; an exception ends it.\<close>

fun run :: "call list \<Rightarrow> SpringMassSystem \<Rightarrow> py_error + SpringMassSystem" where
  "run [] self = Inr self"
| "run (c # cs) self = (case dispatch c self of Inl e \<Rightarrow> Inl e | Inr self' \<Rightarrow> run cs self')"

text \<open>
  The first \<open>n\<close> frames of the animation with no other call in between: the list of
  the states, the starting state first, then the state after each frame.
\<close>

fun animate :: "nat \<Rightarrow> SpringMassSystem \<Rightarrow> py_error + SpringMassSystem list" where
  "animate 0 self = Inr [self]"
| "animate (Suc n) self =
     (case animate n self of
        Inl e \<Rightarrow> Inl e
      | Inr ss \<Rightarrow> (case update (last ss) n of Inl e \<Rightarrow> Inl e | Inr s' \<Rightarrow> Inr (ss @ [s'])))"

section \<open>The same program in binary64 arithmetic\<close>

text \<open>
  How the elapsed time grows depends on the rounding of every addition.  For that
  question the state and \<^verbatim>\<open>update\<close> are embedded a second time, with IEEE 754 binary64
  numbers (53 significant bits, round to nearest, ties to even, subnormals, infinities
  and NaN) where the first embedding has reals.
\<close>

subsection \<open>Rounding to binary64\<close>

text \<open>Rounding a real to the nearest integer, a tie going to the even neighbour.\<close>

definition round_half_even :: "real \<Rightarrow> int" where
  "round_half_even y =
     (let f = \<lfloor>y\<rfloor>; r = y - of_int f
      in if r < 1 / 2 then f else if 1 / 2 < r then f + 1 else if even f then f else f + 1)"

text \<open>
  The exponent \<open>e\<close> of the binade \<open>2 powi e \<le> \<bar>x\<bar> < 2 powi (e + 1)\<close> of a number, found by
  halving (from 1 upwards) or by doubling (below 1).  Below the smallest normal number
  \<open>2 powi (- 1022)\<close> the exponent stays at \<open>- 1022\<close>, the subnormal range.
\<close>

function expo_up :: "real \<Rightarrow> int" where
  "expo_up x = (if x < 2 then 0 else expo_up (x / 2) + 1)"
  by pat_completeness auto
termination
proof (relation "measure (\<lambda>x. nat \<lfloor>x\<rfloor>)")
  show "wf (measure (\<lambda>x::real. nat \<lfloor>x\<rfloor>))" by simp
next
  fix x :: real assume "\<not> x < 2"
  then have "2 \<le> x" by simp
  then have "\<lfloor>x / 2\<rfloor> < \<lfloor>x\<rfloor>" and "0 < \<lfloor>x\<rfloor>" by linarith+
  then show "(x / 2, x) \<in> measure (\<lambda>x. nat \<lfloor>x\<rfloor>)" by simp
qed

fun expo_down :: "nat \<Rightarrow> real \<Rightarrow> int" where
  "expo_down 0 x = 0"
| "expo_down (Suc n) x = (if 1 \<le> x then 0 else expo_down n (2 * x) - 1)"

definition exponent :: "real \<Rightarrow> int" where
  "exponent x = (if 1 \<le> \<bar>x\<bar> then expo_up \<bar>x\<bar> else expo_down 1022 \<bar>x\<bar>)"

text \<open>
  \<open>fl x\<close> is the multiple of the unit in the last place \<open>2 powi (e - 52)\<close> nearest to
  \<open>x\<close>, ties to even: the binary64 rounding with an unbounded exponent range above.
\<close>

definition fl :: "real \<Rightarrow> real" where
  "fl x = (let u = 2 powi (exponent x - 52) in of_int (round_half_even (x / u)) * u)"

text \<open>
  A double is a finite number, an infinity or NaN.  The two zeros are one value here:
  the sign of a zero shows only in a division by zero, which raises in Python.  A
  result whose rounding exceeds the largest double becomes an infinity.
\<close>

definition max_double :: real where
  "max_double = (2 ^ 53 - 1) * 2 ^ 971"

datatype double = Fin real | PInf | MInf | NaN

definition rnd :: "real \<Rightarrow> double" where
  "rnd x = (if max_double < \<bar>fl x\<bar> then (if 0 < x then PInf else MInf) else Fin (fl x))"

text \<open>
  Negation, addition, subtraction, multiplication, division and comparison of Python
  floats.  Each finite result is the exact result rounded once; the cases with an
  infinity or NaN are those of IEEE 754, where every comparison with NaN is false.
  Division raises \<^verbatim>\<open>ZeroDivisionError\<close> for every dividend when the divisor is zero.
\<close>

fun dneg :: "double \<Rightarrow> double" where
  "dneg (Fin a) = Fin (- a)"
| "dneg PInf = MInf"
| "dneg MInf = PInf"
| "dneg NaN = NaN"

fun dadd :: "double \<Rightarrow> double \<Rightarrow> double" where
  "dadd (Fin a) (Fin b) = rnd (a + b)"
| "dadd NaN y = NaN"
| "dadd x NaN = NaN"
| "dadd PInf MInf = NaN"
| "dadd MInf PInf = NaN"
| "dadd PInf y = PInf"
| "dadd MInf y = MInf"
| "dadd (Fin a) y = y"

definition dsub :: "double \<Rightarrow> double \<Rightarrow> double" where
  "dsub x y = dadd x (dneg y)"

fun dmul :: "double \<Rightarrow> double \<Rightarrow> double" where
  "dmul (Fin a) (Fin b) = rnd (a * b)"
| "dmul NaN y = NaN"
| "dmul x NaN = NaN"
| "dmul (Fin a) y = (if a = 0 then NaN else if 0 < a then y else dneg y)"
| "dmul x (Fin b) = (if b = 0 then NaN else if 0 < b then x else dneg x)"
| "dmul PInf y = y"
| "dmul MInf y = dneg y"

fun ddiv :: "double \<Rightarrow> double \<Rightarrow> py_error + double" where
  "ddiv x (Fin b) =
     (if b = 0 then Inl ZeroDivisionError
      else case x of
             Fin a \<Rightarrow> Inr (rnd (a / b))
           | NaN \<Rightarrow> Inr NaN
           | _ \<Rightarrow> Inr (if 0 < b then x else dneg x))"
| "ddiv x NaN = Inr NaN"
| "ddiv (Fin a) y = Inr (Fin 0)"
| "ddiv x y = Inr NaN"

fun dle :: "double \<Rightarrow> double \<Rightarrow> bool" where
  "dle (Fin a) (Fin b) = (a \<le> b)"
| "dle (Fin a) PInf = True"
| "dle (Fin a) y = False"
| "dle MInf NaN = False"
| "dle MInf y = True"
| "dle PInf PInf = True"
| "dle PInf y = False"
| "dle NaN y = False"

fun dlt :: "double \<Rightarrow> double \<Rightarrow> bool" where
  "dlt (Fin a) (Fin b) = (a < b)"
| "dlt (Fin a) PInf = True"
| "dlt (Fin a) y = False"
| "dlt MInf (Fin b) = True"
| "dlt MInf PInf = True"
| "dlt MInf y = False"
| "dlt PInf y = False"
| "dlt NaN y = False"

subsection \<open>The object and the frame in binary64\<close>

text \<open>
  The same attributes with doubles in place of reals.  The literal \<^verbatim>\<open>0.02\<close> is the
  double nearest to 0.02; the other literals are doubles themselves.
\<close>

record SpringMassSystem64 =
  mass64 :: double
  resilience64 :: double
  damping64 :: double
  current_time64 :: double
  dt64 :: double
  time_modifier64 :: double
  x_position64 :: double
  velocity64 :: double
  time_data64 :: "double list"
  velocity_data64 :: "double list"
  velocity_plot_active64 :: bool

definition SpringMassSystem64_init :: SpringMassSystem64 where
  "SpringMassSystem64_init =
     \<lparr> mass64 = Fin 1.0, resilience64 = Fin 10.0, damping64 = Fin 0.5,
       current_time64 = Fin 0, dt64 = rnd 0.02, time_modifier64 = Fin 1.0,
       x_position64 = Fin default_x_pos, velocity64 = Fin 0.0,
       time_data64 = [], velocity_data64 = [],
       velocity_plot_active64 = True \<rparr>"

definition update_mass64 :: "SpringMassSystem64 \<Rightarrow> double \<Rightarrow> SpringMassSystem64" where
  "update_mass64 self v = self\<lparr>mass64 := v\<rparr>"

definition update_resilience64 :: "SpringMassSystem64 \<Rightarrow> double \<Rightarrow> SpringMassSystem64" where
  "update_resilience64 self v = self\<lparr>resilience64 := v\<rparr>"

definition update_damping64 :: "SpringMassSystem64 \<Rightarrow> double \<Rightarrow> SpringMassSystem64" where
  "update_damping64 self v = self\<lparr>damping64 := v\<rparr>"

definition update_time_modifier64 :: "SpringMassSystem64 \<Rightarrow> double \<Rightarrow> SpringMassSystem64" where
  "update_time_modifier64 self v = self\<lparr>time_modifier64 := v\<rparr>"

text \<open>
  \<^verbatim>\<open>update\<close> once more, statement by statement, every operation rounded.  In the
  acceleration the unary minus applies to \<^verbatim>\<open>self.resilience\<close> before the product.
\<close>

definition update64 :: "SpringMassSystem64 \<Rightarrow> nat \<Rightarrow> py_error + SpringMassSystem64" where
  "update64 self frame =
     (case ddiv (dsub (dmul (dneg (resilience64 self)) (x_position64 self))
                      (dmul (damping64 self) (velocity64 self)))
                (mass64 self) of
        Inl e \<Rightarrow> Inl e
      | Inr acceleration \<Rightarrow>
          let effective_dt = dmul (dt64 self) (time_modifier64 self);
              self = self\<lparr>velocity64 := dadd (velocity64 self) (dmul acceleration effective_dt)\<rparr>;
              self = self\<lparr>x_position64 :=
                       dadd (x_position64 self) (dmul (velocity64 self) effective_dt)\<rparr>;
              self = self\<lparr>current_time64 := dadd (current_time64 self) effective_dt\<rparr>;
              self =
                (if velocity_plot_active64 self then
                   if dle (current_time64 self) (Fin 10) then
                     let self = self\<lparr>time_data64 :=
                                  deque_append max_points (time_data64 self) (current_time64 self)\<rparr>;
                         self = self\<lparr>velocity_data64 :=
                                  deque_append max_points (velocity_data64 self) (velocity64 self)\<rparr>
                     in self
                   else self\<lparr>velocity_plot_active64 := False\<rparr>
                 else self)
          in Inr self)"

fun animate64 :: "nat \<Rightarrow> SpringMassSystem64 \<Rightarrow> py_error + SpringMassSystem64 list" where
  "animate64 0 self = Inr [self]"
| "animate64 (Suc n) self =
     (case animate64 n self of
        Inl e \<Rightarrow> Inl e
      | Inr ss \<Rightarrow> (case update64 (last ss) n of Inl e \<Rightarrow> Inl e | Inr s' \<Rightarrow> Inr (ss @ [s'])))"

section \<open>Auxiliary facts\<close>

subsection \<open>One frame\<close>

lemma update_physics:
  assumes "update self frame = Inr self'"
  shows "mass self \<noteq> 0"
    and "velocity self' = velocity self +
           (- resilience self * x_position self - damping self * velocity self) / mass self
             * (dt self * time_modifier self)"
    and "x_position self' = x_position self + velocity self' * (dt self * time_modifier self)"
    and "current_time self' = current_time self + dt self * time_modifier self"
  using assms by (auto simp add: update_def Let_def split: if_splits)


lemma update_recording:
  assumes "update self frame = Inr self'"
    and "velocity_plot_active self" and "current_time self' \<le> 10"
  shows "time_data self' = deque_append max_points (time_data self) (current_time self')"
    and "velocity_data self' = deque_append max_points (velocity_data self) (velocity self')"
    and "velocity_plot_active self'"
  using assms by (auto simp add: update_def Let_def split: if_splits)

lemma update_freezing:
  assumes "update self frame = Inr self'"
    and "velocity_plot_active self" and "\<not> current_time self' \<le> 10"
  shows "time_data self' = time_data self"
    and "velocity_data self' = velocity_data self"
    and "\<not> velocity_plot_active self'"
  using assms by (auto simp add: update_def Let_def split: if_splits)

lemma update_frozen:
  assumes "update self frame = Inr self'"
    and "\<not> velocity_plot_active self"
  shows "time_data self' = time_data self"
    and "velocity_data self' = velocity_data self"
    and "\<not> velocity_plot_active self'"
  using assms by (auto simp add: update_def Let_def split: if_splits)

lemma update_total: "mass self \<noteq> 0 \<Longrightarrow> \<exists>self'. update self frame = Inr self'"
  by (simp add: update_def Let_def)

lemma update_active_iff:
  assumes "update self frame = Inr self'"
  shows "velocity_plot_active self' \<longleftrightarrow> velocity_plot_active self \<and> current_time self' \<le> 10"
  using assms update_recording(3) update_freezing(3) update_frozen(3) by blast

subsection \<open>The bounded deque\<close>

lemma length_deque_append:
  "length (deque_append n d x) = (if length d < n then Suc (length d) else length d)"
  by (simp add: deque_append_def Let_def)



subsection \<open>Consecutive frames\<close>

lemma animate_length: "animate n self = Inr ss \<Longrightarrow> length ss = Suc n"
  by (induction n arbitrary: ss) (auto split: sum.splits)

lemma animate_prefix:
  "animate (Suc n) self = Inr ss' \<Longrightarrow>
     \<exists>ss s'. animate n self = Inr ss \<and> update (last ss) n = Inr s' \<and> ss' = ss @ [s']"
  by (auto split: sum.splits)

lemma animate_first: "animate n self = Inr ss \<Longrightarrow> ss ! 0 = self"
proof (induction n arbitrary: ss)
  case 0
  then show ?case by auto
next
  case (Suc n)
  from animate_prefix[OF Suc.prems] obtain ps s' where
    ps: "animate n self = Inr ps" and ss: "ss = ps @ [s']" by blast
  from animate_length[OF ps] have "0 < length ps" by simp
  with Suc.IH[OF ps] ss show ?case by (simp add: nth_append)
qed

lemma animate_frames:
  "animate n self = Inr ss \<Longrightarrow> i < n \<Longrightarrow> update (ss ! i) i = Inr (ss ! Suc i)"
proof (induction n arbitrary: ss)
  case 0
  then show ?case by simp
next
  case (Suc n)
  from animate_prefix[OF Suc.prems(1)] obtain ps s' where
    ps: "animate n self = Inr ps" and up: "update (last ps) n = Inr s'"
    and ss: "ss = ps @ [s']" by blast
  have len: "length ps = Suc n" by (rule animate_length[OF ps])
  show ?case
  proof (cases "i < n")
    case True
    with Suc.IH[OF ps] have "update (ps ! i) i = Inr (ps ! Suc i)" by simp
    with True len ss show ?thesis by (simp add: nth_append)
  next
    case False
    with Suc.prems(2) have i: "i = n" by simp
    have "ps \<noteq> []" using len by auto
    then have "last ps = ps ! n" using len by (simp add: last_conv_nth)
    with up i len ss show ?thesis by (simp add: nth_append)
  qed
qed


subsection \<open>Calls and sequences of calls\<close>

lemma on_mouse_move_state:
  "dispatch (MouseMoved ev) self = Inr self' \<Longrightarrow> self' = self"
  by (simp split: sum.splits)

lemma dispatch_active:
  assumes "dispatch c self = Inr self'"
  shows "velocity_plot_active self' =
           (case c of
              Frame n \<Rightarrow> velocity_plot_active self \<and> current_time self' \<le> 10
            | ResetClicked ev \<Rightarrow> True
            | _ \<Rightarrow> velocity_plot_active self)"
proof (cases c)
  case (Frame n)
  with assms update_active_iff[of self n self'] show ?thesis by simp
next
  case (MouseMoved ev)
  with assms on_mouse_move_state[of ev self self'] show ?thesis by simp
qed (use assms in \<open>auto simp add: reset_def update_mass_def update_resilience_def
       update_damping_def update_time_modifier_def\<close>)

lemma dispatch_history:
  assumes "dispatch c self = Inr self'"
  shows "(case c of
            Frame n \<Rightarrow>
              if velocity_plot_active self \<and> current_time self' \<le> 10
              then time_data self' = deque_append max_points (time_data self) (current_time self') \<and>
                   velocity_data self' = deque_append max_points (velocity_data self) (velocity self')
              else time_data self' = time_data self \<and> velocity_data self' = velocity_data self
          | ResetClicked ev \<Rightarrow> time_data self' = [] \<and> velocity_data self' = []
          | _ \<Rightarrow> time_data self' = time_data self \<and> velocity_data self' = velocity_data self)"
proof (cases c)
  case (Frame n)
  with assms have up: "update self n = Inr self'" by simp
  show ?thesis
    using Frame update_recording(1,2)[OF up] update_freezing(1,2)[OF up] update_frozen(1,2)[OF up]
    by auto
next
  case (MouseMoved ev)
  with assms on_mouse_move_state[of ev self self'] show ?thesis by simp
qed (use assms in \<open>auto simp add: reset_def deque_clear_def update_mass_def update_resilience_def
       update_damping_def update_time_modifier_def\<close>)

lemma dispatch_frozen:
  assumes "dispatch c self = Inr self'" and "\<not> velocity_plot_active self"
    and "c \<noteq> ResetClicked ()"
  shows "\<not> velocity_plot_active self' \<and> time_data self' = time_data self \<and>
         velocity_data self' = velocity_data self"
  using dispatch_active[OF assms(1)] dispatch_history[OF assms(1)] assms(2,3)
  by (cases c) auto

lemma run_frozen:
  "run cs self = Inr self' \<Longrightarrow> \<not> velocity_plot_active self \<Longrightarrow> ResetClicked () \<notin> set cs \<Longrightarrow>
     \<not> velocity_plot_active self' \<and> time_data self' = time_data self \<and>
     velocity_data self' = velocity_data self"
proof (induction cs arbitrary: self)
  case Nil
  then show ?case by simp
next
  case (Cons c cs)
  from Cons.prems(1) obtain mid where d: "dispatch c self = Inr mid" and r: "run cs mid = Inr self'"
    by (auto split: sum.splits)
  from Cons.prems(3) have "c \<noteq> ResetClicked ()" and rest: "ResetClicked () \<notin> set cs" by auto
  from dispatch_frozen[OF d Cons.prems(2) this(1)]
  have m: "\<not> velocity_plot_active mid" "time_data mid = time_data self"
    "velocity_data mid = velocity_data self" by simp_all
  from Cons.IH[OF r m(1) rest] m show ?case by simp
qed

lemma animate_active:
  assumes "animate n self = Inr ss"
  shows "i \<le> n \<Longrightarrow>
     velocity_plot_active (ss ! i) =
       (velocity_plot_active self \<and> (\<forall>j. 1 \<le> j \<and> j \<le> i \<longrightarrow> current_time (ss ! j) \<le> 10))"
proof (induction i)
  case 0
  then show ?case using animate_first[OF assms] by simp
next
  case (Suc i)
  then have "i < n" by simp
  from animate_frames[OF assms this] have up: "update (ss ! i) i = Inr (ss ! Suc i)" .
  have "velocity_plot_active (ss ! Suc i) =
          (velocity_plot_active (ss ! i) \<and> current_time (ss ! Suc i) \<le> 10)"
    by (rule update_active_iff[OF up])
  also have "\<dots> = ((velocity_plot_active self \<and>
                     (\<forall>j. 1 \<le> j \<and> j \<le> i \<longrightarrow> current_time (ss ! j) \<le> 10)) \<and>
                    current_time (ss ! Suc i) \<le> 10)"
    using Suc by simp
  also have "\<dots> = (velocity_plot_active self \<and>
                    (\<forall>j. 1 \<le> j \<and> j \<le> Suc i \<longrightarrow> current_time (ss ! j) \<le> 10))"
    by (auto simp add: le_Suc_eq)
  finally show ?case .
qed

lemma run_lengths:
  "run cs self = Inr self' \<Longrightarrow> length (time_data self) = length (velocity_data self) \<Longrightarrow>
     length (time_data self') = length (velocity_data self')"
proof (induction cs arbitrary: self)
  case Nil
  then show ?case by simp
next
  case (Cons c cs)
  from Cons.prems(1) obtain mid where d: "dispatch c self = Inr mid" and r: "run cs mid = Inr self'"
    by (auto split: sum.splits)
  have "length (time_data mid) = length (velocity_data mid)"
    using dispatch_history[OF d] Cons.prems(2)
    by (cases c) (auto simp add: length_deque_append split: if_splits)
  from Cons.IH[OF r this] show ?case .
qed

subsection \<open>The nearest sample\<close>




subsection \<open>The spring samples and the elapsed time\<close>

lemma length_linspace: "length (linspace a b n) = n"
  by (simp add: linspace_def Let_def)

lemma linspace_unit_nth:
  assumes "i < 100"
  shows "linspace 0 1 100 ! i = real i / 99"
proof (cases "i = 99")
  case True
  then show ?thesis by (simp add: linspace_def Let_def)
next
  case False
  with assms show ?thesis by (simp add: linspace_def Let_def)
qed

lemma create_spring_nth:
  assumes "i < 100"
  shows "fst (create_spring self x) ! i = real i / 99 * x"
    and "snd (create_spring self x) ! i = 0.2 * sin (2 * pi * 6 * (real i / 99))"
  using assms
  by (simp_all add: create_spring_def Let_def length_linspace linspace_unit_nth[OF assms])

lemma create_spring_length:
  "length (fst (create_spring self x)) = 100" "length (snd (create_spring self x)) = 100"
  by (simp_all add: create_spring_def Let_def length_linspace)


subsection \<open>The history window\<close>









subsection \<open>Binary64 rounding and the elapsed time\<close>

lemma rhe_of_int [simp]: "round_half_even (of_int k) = k"
  by (simp add: round_half_even_def)

lemma rhe_range: "round_half_even y = \<lfloor>y\<rfloor> \<or> round_half_even y = \<lfloor>y\<rfloor> + 1"
  by (simp add: round_half_even_def Let_def)

lemma rhe_mono:
  assumes "x \<le> y"
  shows "round_half_even x \<le> round_half_even y"
proof (cases "\<lfloor>x\<rfloor> = \<lfloor>y\<rfloor>")
  case True
  with assms show ?thesis by (auto simp add: round_half_even_def Let_def)
next
  case False
  with assms have "\<lfloor>x\<rfloor> + 1 \<le> \<lfloor>y\<rfloor>" using floor_mono[OF assms] by linarith
  with rhe_range[of x] rhe_range[of y] show ?thesis by linarith
qed

lemma expo_up_bounds:
  "1 \<le> x \<Longrightarrow> 0 \<le> expo_up x \<and> 2 powi (expo_up x) \<le> x \<and> x < 2 powi (expo_up x + 1)"
proof (induction x rule: expo_up.induct)
  case (1 x)
  show ?case
  proof (cases "x < 2")
    case True
    with "1.prems" show ?thesis by simp
  next
    case False
    then have h: "1 \<le> x / 2" by simp
    from "1.IH"[OF False h] have ih: "0 \<le> expo_up (x / 2)"
      "2 powi (expo_up (x / 2)) \<le> x / 2" "x / 2 < 2 powi (expo_up (x / 2) + 1)" by simp_all
    have e: "expo_up x = expo_up (x / 2) + 1" using False by simp
    show ?thesis unfolding e using ih
      by (simp add: power_int_add field_simps)
  qed
qed

lemma expo_down_bounds:
  "0 \<le> x \<Longrightarrow> x < 2 \<Longrightarrow>
     - int n \<le> expo_down n x \<and> expo_down n x \<le> 0 \<and> x < 2 powi (expo_down n x + 1) \<and>
     (expo_down n x = - int n \<or> 2 powi (expo_down n x) \<le> x)"
proof (induction n arbitrary: x)
  case 0
  then show ?case by simp
next
  case (Suc n)
  show ?case
  proof (cases "1 \<le> x")
    case True
    with Suc.prems show ?thesis by simp
  next
    case False
    then have "0 \<le> 2 * x" "2 * x < 2" using Suc.prems by simp_all
    from Suc.IH[OF this] have ih: "- int n \<le> expo_down n (2 * x)" "expo_down n (2 * x) \<le> 0"
      "2 * x < 2 powi (expo_down n (2 * x) + 1)"
      "expo_down n (2 * x) = - int n \<or> 2 powi (expo_down n (2 * x)) \<le> 2 * x" by simp_all
    have e: "expo_down (Suc n) x = expo_down n (2 * x) - 1" using False by simp
    have p: "2 powi (expo_down n (2 * x)) = (2::real) * 2 powi (expo_down n (2 * x) - 1)"
      by (simp add: power_int_diff)
    show ?thesis unfolding e using ih p
      by (auto simp add: power_int_add)
  qed
qed

lemma rhe_le_int: "y \<le> of_int k \<Longrightarrow> round_half_even y \<le> k"
  using rhe_mono[of y "of_int k"] by simp

lemma rhe_ge_int: "of_int k \<le> y \<Longrightarrow> k \<le> round_half_even y"
  using rhe_mono[of "of_int k" y] by simp

lemma exponent_bounds:
  "- 1022 \<le> exponent x \<and> \<bar>x\<bar> < 2 powi (exponent x + 1) \<and>
   (exponent x = - 1022 \<or> 2 powi (exponent x) \<le> \<bar>x\<bar>)"
proof (cases "1 \<le> \<bar>x\<bar>")
  case True
  with expo_up_bounds[OF True] show ?thesis by (simp add: exponent_def)
next
  case False
  then have "0 \<le> \<bar>x\<bar>" "\<bar>x\<bar> < 2" by simp_all
  from expo_down_bounds[OF this, of 1022] False show ?thesis by (simp add: exponent_def)
qed

lemma exponent_mono:
  assumes "\<bar>x\<bar> \<le> \<bar>y\<bar>"
  shows "exponent x \<le> exponent y"
proof (rule ccontr)
  assume "\<not> exponent x \<le> exponent y"
  then have lt: "exponent y + 1 \<le> exponent x" by simp
  with exponent_bounds[of y] have "exponent x \<noteq> - 1022" by linarith
  with exponent_bounds[of x] have "2 powi (exponent x) \<le> \<bar>x\<bar>" by blast
  also note assms
  also from exponent_bounds[of y] have "\<bar>y\<bar> < 2 powi (exponent y + 1)" by blast
  also have "(2::real) powi (exponent y + 1) \<le> 2 powi (exponent x)"
    using lt by (intro power_int_increasing) simp_all
  finally show False by simp
qed

lemma exponent_normal:
  assumes "- 1022 \<le> e" and "2 powi e \<le> \<bar>x\<bar>" and "\<bar>x\<bar> < 2 powi (e + 1)"
  shows "exponent x = e"
proof (rule antisym)
  show "exponent x \<le> e"
  proof (rule ccontr)
    assume "\<not> exponent x \<le> e"
    then have lt: "e + 1 \<le> exponent x" by simp
    with assms(1) exponent_bounds[of x] have "2 powi (exponent x) \<le> \<bar>x\<bar>" by force
    also note assms(3)
    also have "(2::real) powi (e + 1) \<le> 2 powi (exponent x)"
      using lt by (intro power_int_increasing) simp_all
    finally show False by simp
  qed
next
  show "e \<le> exponent x"
  proof (rule ccontr)
    assume "\<not> e \<le> exponent x"
    then have lt: "exponent x + 1 \<le> e" by simp
    from exponent_bounds[of x] have "\<bar>x\<bar> < 2 powi (exponent x + 1)" by blast
    also have "(2::real) powi (exponent x + 1) \<le> 2 powi e"
      using lt by (intro power_int_increasing) simp_all
    also note assms(2)
    finally show False by simp
  qed
qed

lemma exponent_subnormal:
  assumes "\<bar>x\<bar> < 2 powi (- 1022)"
  shows "exponent x = - 1022"
proof (rule ccontr)
  assume ne: "exponent x \<noteq> - 1022"
  with exponent_bounds[of x] have ge: "- 1022 \<le> exponent x" and "2 powi (exponent x) \<le> \<bar>x\<bar>"
    by blast+
  note this(2)
  also note assms
  also have "(2::real) powi (- 1022) \<le> 2 powi (exponent x)"
    using ge by (intro power_int_increasing) simp_all
  finally show False by simp
qed

lemma fl_nonneg:
  assumes "0 \<le> x"
  shows "0 \<le> fl x"
proof -
  have "of_int 0 \<le> x / 2 powi (exponent x - 52)" using assms by simp
  from rhe_ge_int[OF this] have "0 \<le> round_half_even (x / 2 powi (exponent x - 52))" .
  then show ?thesis by (simp add: fl_def Let_def)
qed

lemma fl_upper:
  assumes "0 \<le> x"
  shows "fl x \<le> 2 powi (exponent x + 1)"
proof -
  let ?u = "(2::real) powi (exponent x - 52)"
  have u: "0 < ?u" by simp
  from exponent_bounds[of x] assms have "x < 2 powi (exponent x + 1)" by simp
  also have "(2::real) powi (exponent x + 1) = 2 ^ 53 * ?u"
    by (simp add: power_int_diff power_int_add)
  finally have "x / ?u \<le> of_int (2 ^ 53)" using u by (simp add: field_simps)
  from rhe_le_int[OF this] have "round_half_even (x / ?u) \<le> 2 ^ 53" .
  then have "(of_int (round_half_even (x / ?u)) :: real) \<le> 2 ^ 53"
    by (metis of_int_le_iff of_int_numeral of_int_power)
  then have "of_int (round_half_even (x / ?u)) * ?u \<le> 2 ^ 53 * ?u"
    using u by (simp add: mult_right_mono)
  also have "2 ^ 53 * ?u = (2::real) powi (exponent x + 1)"
    by (simp add: power_int_diff power_int_add)
  finally show ?thesis by (simp add: fl_def Let_def)
qed

lemma fl_lower:
  assumes "0 \<le> x" and "exponent x \<noteq> - 1022"
  shows "2 powi (exponent x) \<le> fl x"
proof -
  let ?u = "(2::real) powi (exponent x - 52)"
  have u: "0 < ?u" by simp
  have p: "(2::real) powi (exponent x) = 2 ^ 52 * ?u"
    by (simp add: power_int_diff)
  from exponent_bounds[of x] assms have "2 powi (exponent x) \<le> x" by simp
  then have "of_int (2 ^ 52) \<le> x / ?u" using u unfolding p by (simp add: field_simps)
  from rhe_ge_int[OF this] have "2 ^ 52 \<le> round_half_even (x / ?u)" .
  then have "(2::real) ^ 52 \<le> of_int (round_half_even (x / ?u))"
    by (metis of_int_le_iff of_int_numeral of_int_power)
  then have "2 ^ 52 * ?u \<le> of_int (round_half_even (x / ?u)) * ?u"
    using u by (simp add: mult_right_mono)
  then show ?thesis unfolding p by (simp add: fl_def Let_def)
qed

lemma fl_mono_nonneg:
  assumes "0 \<le> x" and "x \<le> y"
  shows "fl x \<le> fl y"
proof -
  from assms have y: "0 \<le> y" by simp
  from assms have "\<bar>x\<bar> \<le> \<bar>y\<bar>" by simp
  from exponent_mono[OF this] have le: "exponent x \<le> exponent y" .
  show ?thesis
  proof (cases "exponent x = exponent y")
    case True
    let ?u = "(2::real) powi (exponent y - 52)"
    have "x / ?u \<le> y / ?u" using assms(2) by (simp add: divide_right_mono)
    from rhe_mono[OF this]
    have "(of_int (round_half_even (x / ?u)) :: real) \<le> of_int (round_half_even (y / ?u))"
      by simp
    then have "of_int (round_half_even (x / ?u)) * ?u \<le> of_int (round_half_even (y / ?u)) * ?u"
      by (simp add: mult_right_mono)
    then show ?thesis by (simp add: fl_def Let_def True)
  next
    case False
    with le have lt: "exponent x + 1 \<le> exponent y" by simp
    with exponent_bounds[of x] have ny: "exponent y \<noteq> - 1022" by linarith
    have "fl x \<le> 2 powi (exponent x + 1)" by (rule fl_upper[OF assms(1)])
    also have "(2::real) powi (exponent x + 1) \<le> 2 powi (exponent y)"
      using lt by (intro power_int_increasing) simp_all
    also have "2 powi (exponent y) \<le> fl y" by (rule fl_lower[OF y ny])
    finally show ?thesis .
  qed
qed

lemma fl_of_int_multiple:
  assumes "x / 2 powi (exponent x - 52) = of_int m"
  shows "fl x = x"
proof -
  have "fl x = of_int m * 2 powi (exponent x - 52)"
    by (simp add: fl_def Let_def assms)
  also have "\<dots> = x" using assms by (simp add: field_simps)
  finally show ?thesis .
qed

lemma fl_grid:
  assumes "0 \<le> K" and "K \<le> 2 ^ 53" and "- 1074 \<le> j"
  shows "fl (of_int K * 2 powi j) = of_int K * 2 powi j"
proof -
  define a :: real where "a = of_int K * 2 powi j"
  define E where "E = exponent a"
  have a0: "0 \<le> a" using assms(1) by (simp add: a_def)
  show ?thesis
  proof (cases "E - 52 \<le> j")
    case True
    then have d: "0 \<le> j - (E - 52)" by simp
    have "a / 2 powi (E - 52) = of_int K * 2 powi (j - (E - 52))"
      by (simp add: a_def power_int_diff)
    also have "\<dots> = of_int K * 2 ^ nat (j - (E - 52))"
      using d by (simp add: power_int_nonneg_exp)
    also have "\<dots> = of_int (K * 2 ^ nat (j - (E - 52)))" by simp
    finally have "a / 2 powi (exponent a - 52) = of_int (K * 2 ^ nat (j - (E - 52)))"
      by (simp add: E_def)
    from fl_of_int_multiple[OF this] show ?thesis by (simp add: a_def)
  next
    case False
    then have big: "j + 53 \<le> E" by simp
    with assms(3) have "E \<noteq> - 1022" by simp
    with exponent_bounds[of a] a0 have "2 powi E \<le> a" by (simp add: E_def)
    moreover have "a \<le> 2 powi E"
    proof -
      have "(of_int K :: real) \<le> 2 ^ 53" using assms(2)
        by (metis of_int_le_iff of_int_numeral of_int_power)
      then have "a \<le> 2 ^ 53 * 2 powi j" by (simp add: a_def mult_right_mono)
      also have "\<dots> = 2 powi (j + 53)" by (simp add: power_int_add)
      also have "\<dots> \<le> 2 powi E" using big by (intro power_int_increasing) simp_all
      finally show ?thesis .
    qed
    ultimately have "a = 2 powi E" by simp
    then have "a / 2 powi (E - 52) = of_int (2 ^ 52)" by (simp add: power_int_diff)
    then have "a / 2 powi (exponent a - 52) = of_int (2 ^ 52)" by (simp add: E_def)
    from fl_of_int_multiple[OF this] show ?thesis by (simp add: a_def)
  qed
qed

lemma fl_idem_nonneg:
  assumes "0 \<le> x"
  shows "fl (fl x) = fl x"
proof -
  let ?u = "(2::real) powi (exponent x - 52)"
  let ?K = "round_half_even (x / ?u)"
  have u: "0 < ?u" by simp
  have "of_int 0 \<le> x / ?u" using assms by simp
  from rhe_ge_int[OF this] have K0: "0 \<le> ?K" .
  from exponent_bounds[of x] assms have "x < 2 powi (exponent x + 1)" by simp
  also have "(2::real) powi (exponent x + 1) = 2 ^ 53 * ?u"
    by (simp add: power_int_diff power_int_add)
  finally have "x / ?u \<le> of_int (2 ^ 53)" using u by (simp add: field_simps)
  from rhe_le_int[OF this] have K1: "?K \<le> 2 ^ 53" .
  from exponent_bounds[of x] have j: "- 1074 \<le> exponent x - 52" by simp
  have f: "fl x = of_int ?K * 2 powi (exponent x - 52)" by (simp add: fl_def Let_def)
  show ?thesis unfolding f by (rule fl_grid[OF K0 K1 j])
qed

lemma fl_zero [simp]: "fl 0 = 0"
  by (simp add: fl_def round_half_even_def)

lemma rnd_normal:
  assumes "- 1022 \<le> e" and "2 powi e \<le> \<bar>x\<bar>" and "\<bar>x\<bar> < 2 powi (e + 1)"
    and "round_half_even (x / 2 powi (e - 52)) = K"
    and "\<bar>of_int K * 2 powi (e - 52)\<bar> \<le> max_double"
  shows "rnd x = Fin (of_int K * 2 powi (e - 52))"
proof -
  have "exponent x = e" by (rule exponent_normal[OF assms(1-3)])
  then have "fl x = of_int K * 2 powi (e - 52)" using assms(4) by (simp add: fl_def Let_def)
  with assms(5) show ?thesis by (simp add: rnd_def)
qed

lemma rnd_subnormal:
  assumes "\<bar>x\<bar> < 2 powi (- 1022)"
    and "round_half_even (x / 2 powi (- 1074)) = K"
    and "\<bar>of_int K * 2 powi (- 1074)\<bar> \<le> max_double"
  shows "rnd x = Fin (of_int K * 2 powi (- 1074))"
proof -
  have "exponent x = - 1022" by (rule exponent_subnormal[OF assms(1)])
  then have "fl x = of_int K * 2 powi (- 1074)" using assms(2) by (simp add: fl_def Let_def)
  with assms(3) show ?thesis by (simp add: rnd_def)
qed

lemma rnd_dt: "rnd 0.02 = Fin (5764607523034235 / 2 ^ 58)"
  using rnd_normal[of "- 6" "0.02" 5764607523034235]
  by (simp add: round_half_even_def max_double_def)

lemma step_default: "dmul (Fin (5764607523034235 / 2 ^ 58)) (Fin 1) = Fin (5764607523034235 / 2 ^ 58)"
  using rnd_normal[of "- 6" "5764607523034235 / 2 ^ 58" 5764607523034235]
  by (simp add: round_half_even_def max_double_def)

lemma time_1: "dadd (Fin 0) (Fin (5764607523034235 / 2 ^ 58)) = Fin (5764607523034235 / 2 ^ 58)"
  using rnd_normal[of "- 6" "5764607523034235 / 2 ^ 58" 5764607523034235]
  by (simp add: round_half_even_def max_double_def)

lemma time_2:
  "dadd (Fin (5764607523034235 / 2 ^ 58)) (Fin (5764607523034235 / 2 ^ 58))
     = Fin (5764607523034235 / 2 ^ 57)"
  using rnd_normal[of "- 5" "5764607523034235 / 2 ^ 57" 5764607523034235]
  by (simp add: round_half_even_def max_double_def)

lemma time_3:
  "dadd (Fin (5764607523034235 / 2 ^ 57)) (Fin (5764607523034235 / 2 ^ 58))
     = Fin (8646911284551352 / 2 ^ 57)"
  using rnd_normal[of "- 5" "17293822569102705 / 2 ^ 58" 8646911284551352]
  by (simp add: round_half_even_def max_double_def)

lemma step_tiny: "dmul (Fin (5764607523034235 / 2 ^ 58)) (Fin (2 powi (- 1073))) = Fin 0"
  using rnd_subnormal[of "5764607523034235 / 2 ^ 58 * 2 powi (- 1073)" 0]
  by (simp add: round_half_even_def max_double_def)

lemma time_tiny: "dadd (Fin 0) (Fin 0) = Fin 0"
  by (simp add: rnd_def max_double_def)

lemma ddiv_total: "y \<noteq> Fin 0 \<Longrightarrow> \<exists>z. ddiv x y = Inr z"
  by (cases "(x, y)" rule: ddiv.cases) (auto split: double.splits)

lemma update64_total:
  "mass64 self \<noteq> Fin 0 \<Longrightarrow> \<exists>self'. update64 self frame = Inr self'"
proof -
  assume "mass64 self \<noteq> Fin 0"
  from ddiv_total[OF this] obtain z where
    "ddiv (dsub (dmul (dneg (resilience64 self)) (x_position64 self))
                (dmul (damping64 self) (velocity64 self))) (mass64 self) = Inr z"
    by blast
  then show ?thesis by (simp add: update64_def Let_def)
qed

lemma update64_time:
  assumes "update64 self frame = Inr self'"
  shows "current_time64 self' =
           dadd (current_time64 self) (dmul (dt64 self) (time_modifier64 self))"
    and "dt64 self' = dt64 self" and "time_modifier64 self' = time_modifier64 self"
    and "mass64 self' = mass64 self"
  using assms by (auto simp add: update64_def Let_def split: sum.splits if_splits)

lemma animate64_length: "animate64 n self = Inr ss \<Longrightarrow> length ss = Suc n"
  by (induction n arbitrary: ss) (auto split: sum.splits)

lemma animate64_prefix:
  "animate64 (Suc n) self = Inr ss' \<Longrightarrow>
     \<exists>ss s'. animate64 n self = Inr ss \<and> update64 (last ss) n = Inr s' \<and> ss' = ss @ [s']"
  by (auto split: sum.splits)

lemma animate64_first: "animate64 n self = Inr ss \<Longrightarrow> ss ! 0 = self"
proof (induction n arbitrary: ss)
  case 0
  then show ?case by auto
next
  case (Suc n)
  from animate64_prefix[OF Suc.prems] obtain ps s' where
    ps: "animate64 n self = Inr ps" and ss: "ss = ps @ [s']" by blast
  from animate64_length[OF ps] have "0 < length ps" by simp
  with Suc.IH[OF ps] ss show ?case by (simp add: nth_append)
qed

lemma animate64_frames:
  "animate64 n self = Inr ss \<Longrightarrow> i < n \<Longrightarrow> update64 (ss ! i) i = Inr (ss ! Suc i)"
proof (induction n arbitrary: ss)
  case 0
  then show ?case by simp
next
  case (Suc n)
  from animate64_prefix[OF Suc.prems(1)] obtain ps s' where
    ps: "animate64 n self = Inr ps" and up: "update64 (last ps) n = Inr s'"
    and ss: "ss = ps @ [s']" by blast
  have len: "length ps = Suc n" by (rule animate64_length[OF ps])
  show ?case
  proof (cases "i < n")
    case True
    with Suc.IH[OF ps] have "update64 (ps ! i) i = Inr (ps ! Suc i)" by simp
    with True len ss show ?thesis by (simp add: nth_append)
  next
    case False
    with Suc.prems(2) have i: "i = n" by simp
    have "ps \<noteq> []" using len by auto
    then have "last ps = ps ! n" using len by (simp add: last_conv_nth)
    with up i len ss show ?thesis by (simp add: nth_append)
  qed
qed

lemma animate64_total:
  "mass64 self \<noteq> Fin 0 \<Longrightarrow> \<exists>ss. animate64 n self = Inr ss \<and> mass64 (last ss) = mass64 self"
proof (induction n)
  case 0
  then show ?case by simp
next
  case (Suc n)
  then obtain ps where ps: "animate64 n self = Inr ps" and m: "mass64 (last ps) = mass64 self"
    by blast
  with Suc.prems obtain s' where up: "update64 (last ps) n = Inr s'"
    using update64_total[of "last ps" n] by auto
  from update64_time(4)[OF up] m have "mass64 s' = mass64 self" by simp
  with ps up show ?case by simp
qed

lemma animate64_times:
  assumes "animate64 n self = Inr ss"
  shows "i \<le> n \<Longrightarrow> dt64 (ss ! i) = dt64 self \<and> time_modifier64 (ss ! i) = time_modifier64 self"
    and "i < n \<Longrightarrow> current_time64 (ss ! Suc i) =
           dadd (current_time64 (ss ! i)) (dmul (dt64 self) (time_modifier64 self))"
proof -
  show par: "i \<le> n \<Longrightarrow> dt64 (ss ! i) = dt64 self \<and> time_modifier64 (ss ! i) = time_modifier64 self"
    for i
  proof (induction i)
    case 0
    then show ?case using animate64_first[OF assms] by simp
  next
    case (Suc i)
    then have "i < n" by simp
    from animate64_frames[OF assms this] have up: "update64 (ss ! i) i = Inr (ss ! Suc i)" .
    from update64_time(2,3)[OF up] Suc show ?case by simp
  qed
  assume i: "i < n"
  from animate64_frames[OF assms i] have up: "update64 (ss ! i) i = Inr (ss ! Suc i)" .
  from update64_time(1)[OF up] par[of i] i
  show "current_time64 (ss ! Suc i) =
           dadd (current_time64 (ss ! i)) (dmul (dt64 self) (time_modifier64 self))"
    by simp
qed

text \<open>Elapsed times are non-negative doubles or plus infinity; steps are non-negative.\<close>

lemma rnd_nonneg:
  assumes "0 \<le> x"
  shows "rnd x = PInf \<or> (\<exists>a. rnd x = Fin a \<and> 0 \<le> a \<and> fl a = a \<and> fl x = a)"
proof (cases "max_double < \<bar>fl x\<bar>")
  case True
  have "x \<noteq> 0"
  proof
    assume "x = 0"
    with True show False by (simp add: max_double_def)
  qed
  with assms True show ?thesis by (simp add: rnd_def)
next
  case False
  with fl_nonneg[OF assms] fl_idem_nonneg[OF assms] show ?thesis by (simp add: rnd_def)
qed

lemma step_nonneg:
  assumes "dlt (Fin 0) ts"
  shows "dmul (rnd 0.02) ts = PInf \<or> (\<exists>b. dmul (rnd 0.02) ts = Fin b \<and> 0 \<le> b)"
proof (cases ts)
  case (Fin b)
  with assms have b: "0 < b" by simp
  have "0 \<le> 5764607523034235 / 2 ^ 58 * b" using b by simp
  from rnd_nonneg[OF this] show ?thesis unfolding rnd_dt Fin by auto
next
  case PInf
  show ?thesis unfolding PInf rnd_dt by simp
next
  case MInf
  with assms show ?thesis by simp
next
  case NaN
  with assms show ?thesis by simp
qed

lemma dadd_nonneg:
  assumes t: "t = PInf \<or> (\<exists>a. t = Fin a \<and> 0 \<le> a \<and> fl a = a)"
    and e: "e = PInf \<or> (\<exists>b. e = Fin b \<and> 0 \<le> b)"
  shows "(dadd t e = PInf \<or> (\<exists>a. dadd t e = Fin a \<and> 0 \<le> a \<and> fl a = a)) \<and> dle t (dadd t e)"
proof -
  consider (inf) "t = PInf" | (fin_inf) a where "t = Fin a" "e = PInf"
    | (fin) a b where "t = Fin a" "0 \<le> a" "fl a = a" "e = Fin b" "0 \<le> b"
    using t e by blast
  then show ?thesis
  proof cases
    case inf
    with e show ?thesis by auto
  next
    case fin_inf
    then show ?thesis by simp
  next
    case fin
    then have s: "0 \<le> a + b" and le: "a \<le> a + b" by simp_all
    from fl_mono_nonneg[OF fin(2) le] fin(3) have a: "a \<le> fl (a + b)" by simp
    from rnd_nonneg[OF s] show ?thesis
    proof
      assume "rnd (a + b) = PInf"
      with fin show ?thesis by simp
    next
      assume "\<exists>c. rnd (a + b) = Fin c \<and> 0 \<le> c \<and> fl c = c \<and> fl (a + b) = c"
      then obtain c where "rnd (a + b) = Fin c" "0 \<le> c" "fl c = c" "fl (a + b) = c" by blast
      with fin a show ?thesis by simp
    qed
  qed
qed

lemma default_run64:
  "\<exists>ss. animate64 3 SpringMassSystem64_init = Inr ss \<and>
     map current_time64 ss =
       [Fin 0, Fin (5764607523034235 / 2 ^ 58), Fin (5764607523034235 / 2 ^ 57),
        Fin (8646911284551352 / 2 ^ 57)]"
proof -
  let ?s = SpringMassSystem64_init
  have f: "mass64 ?s \<noteq> Fin 0" "current_time64 ?s = Fin 0"
    "dt64 ?s = Fin (5764607523034235 / 2 ^ 58)" "time_modifier64 ?s = Fin 1"
    unfolding SpringMassSystem64_init_def rnd_dt by simp_all
  from animate64_total[OF f(1), of 3] obtain ss where ss: "animate64 3 ?s = Inr ss" by blast
  from animate64_length[OF ss] have len: "length ss = 4" by simp
  have t0: "current_time64 (ss ! 0) = Fin 0" using animate64_first[OF ss] f(2) by simp
  have st: "i < 3 \<Longrightarrow> current_time64 (ss ! Suc i) =
      dadd (current_time64 (ss ! i)) (Fin (5764607523034235 / 2 ^ 58))" for i
    using animate64_times(2)[OF ss, of i] unfolding f(3,4) step_default by simp
  have t1: "current_time64 (ss ! 1) = Fin (5764607523034235 / 2 ^ 58)"
    using st[of 0] unfolding t0 time_1 by simp
  have t2: "current_time64 (ss ! 2) = Fin (5764607523034235 / 2 ^ 57)"
    using st[of 1] t1 unfolding time_2[symmetric] by (simp add: eval_nat_numeral)
  have t3: "current_time64 (ss ! 3) = Fin (8646911284551352 / 2 ^ 57)"
    using st[of 2] t2 unfolding time_3[symmetric] by (simp add: eval_nat_numeral)
  from len obtain a b c d where "ss = [a, b, c, d]"
    by (auto simp add: length_Suc_conv eval_nat_numeral)
  with ss t0 t1 t2 t3 show ?thesis by simp
qed

lemma tiny_run64:
  "\<exists>ss. animate64 1 (update_time_modifier64 SpringMassSystem64_init (Fin (2 powi (- 1073))))
           = Inr ss \<and>
     map current_time64 ss = [Fin 0, Fin 0]"
proof -
  let ?s = "update_time_modifier64 SpringMassSystem64_init (Fin (2 powi (- 1073)))"
  have f: "mass64 ?s \<noteq> Fin 0" "current_time64 ?s = Fin 0"
    "dt64 ?s = Fin (5764607523034235 / 2 ^ 58)" "time_modifier64 ?s = Fin (2 powi (- 1073))"
    unfolding update_time_modifier64_def SpringMassSystem64_init_def rnd_dt by simp_all
  from animate64_total[OF f(1), of 1] obtain ss where ss: "animate64 1 ?s = Inr ss" by blast
  from animate64_length[OF ss] have len: "length ss = 2" by simp
  have t0: "current_time64 (ss ! 0) = Fin 0" using animate64_first[OF ss] f(2) by simp
  have "current_time64 (ss ! Suc 0) = dadd (current_time64 (ss ! 0))
      (dmul (dt64 ?s) (time_modifier64 ?s))"
    by (rule animate64_times(2)[OF ss]) simp
  then have t1: "current_time64 (ss ! 1) = Fin 0"
    unfolding f(3,4) step_tiny t0 time_tiny by simp
  from len obtain a b where "ss = [a, b]"
    by (auto simp add: length_Suc_conv eval_nat_numeral)
  with ss t0 t1 show ?thesis by simp
qed

section \<open>Properties\<close>

subsection \<open>The integration step\<close>

text \<open>
  C1.  For every state with a non-zero mass, one call of \<^verbatim>\<open>update\<close> succeeds and
  computes the acceleration \<open>(- resilience * x_position - damping * velocity) / mass\<close>
  from the position and velocity before the call, takes \<open>dt * time_modifier\<close> as the
  effective step, adds acceleration times step to the velocity, then adds the new
  velocity times step to the position, then adds the step to the elapsed time.
\<close>

theorem update_integration_step:
  assumes "mass self \<noteq> 0"
  shows "\<exists>self'. update self frame = Inr self' \<and>
           velocity self' = velocity self +
             ((- resilience self * x_position self - damping self * velocity self) / mass self)
               * (dt self * time_modifier self) \<and>
           x_position self' = x_position self + velocity self' * (dt self * time_modifier self) \<and>
           current_time self' = current_time self + dt self * time_modifier self"
proof -
  from update_total[OF assms] obtain self' where up: "update self frame = Inr self'" ..
  from update_physics(2-4)[OF up] up show ?thesis by blast
qed

theorem update_integration_step_witness:
  "mass SpringMassSystem_init \<noteq> 0 \<and>
   (\<exists>self'. update SpringMassSystem_init 0 = Inr self' \<and>
      velocity self' = - 0.4 \<and> x_position self' = 1.992 \<and> current_time self' = 0.02)"
  using update_integration_step[of SpringMassSystem_init 0]
  by (auto simp add: SpringMassSystem_init_def default_x_pos_def)

subsection \<open>Reset\<close>

text \<open>
  C4.  From every state, \<^verbatim>\<open>reset\<close> sets the position to the default 2.0, the velocity
  and the elapsed time to 0, empties both history deques and switches recording on,
  and it leaves mass, resilience, damping and the time modifier (and the fixed step)
  as they were.
\<close>

theorem reset_restores_defaults:
  "x_position (reset self ev) = 2.0 \<and>
   velocity (reset self ev) = 0 \<and>
   current_time (reset self ev) = 0 \<and>
   time_data (reset self ev) = [] \<and>
   velocity_data (reset self ev) = [] \<and>
   velocity_plot_active (reset self ev) = True \<and>
   mass (reset self ev) = mass self \<and>
   resilience (reset self ev) = resilience self \<and>
   damping (reset self ev) = damping self \<and>
   time_modifier (reset self ev) = time_modifier self \<and>
   dt (reset self ev) = dt self"
  by (simp add: reset_def default_x_pos_def deque_clear_def)

subsection \<open>Physics after the recording has stopped\<close>

text \<open>
  C9.  Once the recording flag is false, a frame (with a non-zero mass) still performs
  the whole integration step on velocity, position and elapsed time, while both
  history deques stay as they are and the flag stays false.
\<close>

theorem update_frozen_still_integrates:
  assumes "\<not> velocity_plot_active self" and "mass self \<noteq> 0"
  shows "\<exists>self'. update self frame = Inr self' \<and>
           velocity self' = velocity self +
             ((- resilience self * x_position self - damping self * velocity self) / mass self)
               * (dt self * time_modifier self) \<and>
           x_position self' = x_position self + velocity self' * (dt self * time_modifier self) \<and>
           current_time self' = current_time self + dt self * time_modifier self \<and>
           time_data self' = time_data self \<and>
           velocity_data self' = velocity_data self \<and>
           \<not> velocity_plot_active self'"
proof -
  from update_total[OF assms(2)] obtain self' where up: "update self frame = Inr self'" ..
  from update_physics(2-4)[OF up] update_frozen[OF up assms(1)] up show ?thesis by blast
qed

theorem update_frozen_still_integrates_witness:
  "\<not> velocity_plot_active (SpringMassSystem_init\<lparr>current_time := 10.02, velocity_plot_active := False\<rparr>) \<and>
   mass (SpringMassSystem_init\<lparr>current_time := 10.02, velocity_plot_active := False\<rparr>) \<noteq> 0 \<and>
   (\<exists>self'. update (SpringMassSystem_init\<lparr>current_time := 10.02, velocity_plot_active := False\<rparr>) 501
               = Inr self' \<and>
      velocity self' = - 0.4 \<and> x_position self' = 1.992 \<and> current_time self' = 10.04 \<and>
      time_data self' = [] \<and> velocity_data self' = [] \<and> \<not> velocity_plot_active self')"
  using update_frozen_still_integrates
          [of "SpringMassSystem_init\<lparr>current_time := 10.02, velocity_plot_active := False\<rparr>" 501]
  by (auto simp add: SpringMassSystem_init_def default_x_pos_def)

subsection \<open>The recording flag\<close>

text \<open>
  C2.  The flag \<^verbatim>\<open>velocity_plot_active\<close> is a two-state machine.  It is true after
  construction.  A frame keeps it true exactly when it was true and the elapsed time
  after the integration step is at most 10; a reset makes it true; no other call
  changes it.  So over consecutive frames from a recording state it is true up to the
  first frame whose elapsed time after the step exceeds 10 and false from that frame
  on, and from a frozen state every sequence of calls without a reset leaves the flag
  false and both history deques as they were.
\<close>

theorem recording_flag_state_machine:
  "velocity_plot_active SpringMassSystem_init \<and>
   (dispatch c self = Inr self' \<longrightarrow>
      velocity_plot_active self' =
        (case c of
           Frame n \<Rightarrow> velocity_plot_active self \<and> current_time self' \<le> 10
         | ResetClicked ev \<Rightarrow> True
         | _ \<Rightarrow> velocity_plot_active self)) \<and>
   (animate n start = Inr ss \<and> velocity_plot_active start \<and> i \<le> n \<longrightarrow>
      velocity_plot_active (ss ! i) =
        (\<forall>j. 1 \<le> j \<and> j \<le> i \<longrightarrow> current_time (ss ! j) \<le> 10)) \<and>
   (run cs frozen = Inr frozen' \<and> \<not> velocity_plot_active frozen \<and> ResetClicked () \<notin> set cs \<longrightarrow>
      \<not> velocity_plot_active frozen' \<and> time_data frozen' = time_data frozen \<and>
      velocity_data frozen' = velocity_data frozen)"
proof -
  have "velocity_plot_active SpringMassSystem_init"
    by (simp add: SpringMassSystem_init_def)
  moreover have "dispatch c self = Inr self' \<longrightarrow>
      velocity_plot_active self' =
        (case c of
           Frame n \<Rightarrow> velocity_plot_active self \<and> current_time self' \<le> 10
         | ResetClicked ev \<Rightarrow> True
         | _ \<Rightarrow> velocity_plot_active self)"
    using dispatch_active by blast
  moreover have "animate n start = Inr ss \<and> velocity_plot_active start \<and> i \<le> n \<longrightarrow>
      velocity_plot_active (ss ! i) =
        (\<forall>j. 1 \<le> j \<and> j \<le> i \<longrightarrow> current_time (ss ! j) \<le> 10)"
    using animate_active[of n start ss i] by blast
  moreover have "run cs frozen = Inr frozen' \<and> \<not> velocity_plot_active frozen \<and>
      ResetClicked () \<notin> set cs \<longrightarrow>
      \<not> velocity_plot_active frozen' \<and> time_data frozen' = time_data frozen \<and>
      velocity_data frozen' = velocity_data frozen"
    using run_frozen[of cs frozen frozen'] by blast
  ultimately show ?thesis by blast
qed

theorem recording_flag_state_machine_witness:
  "(let z = SpringMassSystem_init\<lparr>x_position := 0, current_time := 10\<rparr>;
        z1 = z\<lparr>current_time := 10.02, velocity_plot_active := False\<rparr>;
        z2 = z1\<lparr>current_time := 10.04\<rparr>
    in velocity_plot_active z \<and> dispatch (Frame 0) z = Inr z1 \<and> \<not> velocity_plot_active z1 \<and>
       \<not> current_time z1 \<le> 10 \<and>
       animate 2 z = Inr [z, z1, z2] \<and> \<not> velocity_plot_active ([z, z1, z2] ! 2) \<and>
       run [Frame 1, MassChanged 3] z1 = Inr (z2\<lparr>mass := 3\<rparr>) \<and>
       ResetClicked () \<notin> set [Frame 1, MassChanged 3] \<and>
       \<not> velocity_plot_active (z2\<lparr>mass := 3\<rparr>) \<and>
       time_data (z2\<lparr>mass := 3\<rparr>) = time_data z1 \<and>
       velocity_data (z2\<lparr>mass := 3\<rparr>) = velocity_data z1)"
proof -
  define z where "z = SpringMassSystem_init\<lparr>x_position := 0, current_time := 10\<rparr>"
  define z1 where "z1 = z\<lparr>current_time := 10.02, velocity_plot_active := False\<rparr>"
  define z2 where "z2 = z1\<lparr>current_time := 10.04\<rparr>"
  have u0: "update z 0 = Inr z1"
    by (simp add: z_def z1_def update_def Let_def SpringMassSystem_init_def)
  have u1: "update z1 1 = Inr z2"
    by (simp add: z_def z1_def z2_def update_def Let_def SpringMassSystem_init_def)
  have a: "animate 2 z = Inr [z, z1, z2]"
    using u0 u1 by (simp add: numeral_2_eq_2)
  have r: "run [Frame 1, MassChanged 3] z1 = Inr (z2\<lparr>mass := 3\<rparr>)"
    using u1 by (simp add: update_mass_def)
  have act: "velocity_plot_active z"
    by (simp add: z_def SpringMassSystem_init_def)
  have f1: "\<not> velocity_plot_active z1" and t1: "\<not> current_time z1 \<le> 10"
    by (simp_all add: z1_def)
  have nr: "ResetClicked () \<notin> set [Frame 1, MassChanged 3]" by simp
  have late: "\<not> (\<forall>j. 1 \<le> j \<and> j \<le> 2 \<longrightarrow> current_time ([z, z1, z2] ! j) \<le> 10)"
    using t1 by (auto intro!: exI[of _ 1])
  note sm = recording_flag_state_machine
            [where c = "Frame 0" and self = z and self' = z1
               and n = 2 and start = z and ss = "[z, z1, z2]" and i = 2
               and cs = "[Frame 1, MassChanged 3]" and frozen = z1 and frozen' = "z2\<lparr>mass := 3\<rparr>"]
  from sm a act late have f2: "\<not> velocity_plot_active ([z, z1, z2] ! 2)" by simp
  from sm r f1 nr have f3: "\<not> velocity_plot_active (z2\<lparr>mass := 3\<rparr>) \<and>
        time_data (z2\<lparr>mass := 3\<rparr>) = time_data z1 \<and>
        velocity_data (z2\<lparr>mass := 3\<rparr>) = velocity_data z1" by blast
  have d: "dispatch (Frame 0) z = Inr z1" using u0 by simp
  from act d f1 t1 a f2 r nr f3 show ?thesis
    unfolding Let_def z_def[symmetric] z1_def[symmetric] z2_def[symmetric] by blast
qed

subsection \<open>Parameter setters\<close>

text \<open>
  C8 (as the code has it).  The four slider callbacks store the value they are given,
  whatever it is: they never raise, and they change no other attribute.  In particular
  a mass that is zero or negative is stored and replaces the previous one.
\<close>

theorem setters_store_any_value:
  "dispatch (MassChanged v) self = Inr (self\<lparr>mass := v\<rparr>) \<and>
   dispatch (ResilienceChanged v) self = Inr (self\<lparr>resilience := v\<rparr>) \<and>
   dispatch (DampingChanged v) self = Inr (self\<lparr>damping := v\<rparr>) \<and>
   dispatch (TimeChanged v) self = Inr (self\<lparr>time_modifier := v\<rparr>)"
  by (simp add: update_mass_def update_resilience_def update_damping_def
        update_time_modifier_def)

text \<open>
  The counterexample to C8 as stated: setting the mass of a new system to \<open>-1\<close> returns
  normally, and the stored mass is then \<open>-1\<close> instead of the previous \<open>1\<close>.
\<close>

theorem setter_rejects_invalid_counterexample:
  "mass SpringMassSystem_init = 1 \<and>
   dispatch (MassChanged (- 1)) SpringMassSystem_init = Inr (update_mass SpringMassSystem_init (- 1)) \<and>
   mass (update_mass SpringMassSystem_init (- 1)) = - 1"
  by (simp add: update_mass_def SpringMassSystem_init_def)

subsection \<open>Times and velocities are recorded in pairs\<close>

text \<open>
  C10.  In every state reached from a new system by any sequence of calls, the deque of
  times and the deque of velocities have the same length.  A call either appends one
  sample to both (a frame while recording whose elapsed time after the step is at most
  10), or clears both (reset), or leaves both as they are (a setter, a mouse move, a
  frame that appends nothing); so every call preserves the equality of the lengths.
\<close>

theorem history_lengths_equal:
  "(run cs SpringMassSystem_init = Inr self \<longrightarrow>
      length (time_data self) = length (velocity_data self)) \<and>
   (dispatch c s = Inr s' \<longrightarrow>
      (case c of
         Frame n \<Rightarrow>
           if velocity_plot_active s \<and> current_time s' \<le> 10
           then time_data s' = deque_append max_points (time_data s) (current_time s') \<and>
                velocity_data s' = deque_append max_points (velocity_data s) (velocity s')
           else time_data s' = time_data s \<and> velocity_data s' = velocity_data s
       | ResetClicked ev \<Rightarrow> time_data s' = [] \<and> velocity_data s' = []
       | _ \<Rightarrow> time_data s' = time_data s \<and> velocity_data s' = velocity_data s)) \<and>
   (dispatch c s = Inr s' \<and> length (time_data s) = length (velocity_data s) \<longrightarrow>
      length (time_data s') = length (velocity_data s'))"
proof -
  have "run cs SpringMassSystem_init = Inr self \<longrightarrow>
      length (time_data self) = length (velocity_data self)"
    using run_lengths[of cs SpringMassSystem_init self]
    by (simp add: SpringMassSystem_init_def)
  moreover have "dispatch c s = Inr s' \<and> length (time_data s) = length (velocity_data s) \<longrightarrow>
      length (time_data s') = length (velocity_data s')"
    using run_lengths[of "[c]" s s'] by (simp split: sum.splits)
  ultimately show ?thesis using dispatch_history[of c s s'] by blast
qed

theorem history_lengths_equal_witness:
  "run [Frame 0, ResetClicked (), Frame 1] SpringMassSystem_init =
     Inr (SpringMassSystem_init\<lparr>current_time := 0.02, x_position := 1.992, velocity := - 0.4,
            time_data := [0.02], velocity_data := [- 0.4]\<rparr>) \<and>
   dispatch (Frame 0) SpringMassSystem_init =
     Inr (SpringMassSystem_init\<lparr>current_time := 0.02, x_position := 1.992, velocity := - 0.4,
            time_data := [0.02], velocity_data := [- 0.4]\<rparr>) \<and>
   length [0.02 :: real] = length [- 0.4 :: real]"
proof -
  define s1 where "s1 = SpringMassSystem_init\<lparr>current_time := 0.02, x_position := 1.992,
      velocity := - 0.4, time_data := [0.02], velocity_data := [- 0.4]\<rparr>"
  have u0: "update SpringMassSystem_init 0 = Inr s1"
    by (simp add: s1_def update_def Let_def SpringMassSystem_init_def default_x_pos_def
          deque_append_def max_points_def)
  have rs: "reset s1 () = SpringMassSystem_init"
    by (simp add: s1_def reset_def Let_def SpringMassSystem_init_def deque_clear_def)
  have u1: "update SpringMassSystem_init 1 = Inr s1"
    by (simp add: s1_def update_def Let_def SpringMassSystem_init_def default_x_pos_def
          deque_append_def max_points_def)
  have r: "run [Frame 0, ResetClicked (), Frame 1] SpringMassSystem_init = Inr s1"
    using u0 rs u1 by simp
  have d: "dispatch (Frame 0) SpringMassSystem_init = Inr s1"
    using u0 by simp
  from history_lengths_equal
         [where cs = "[Frame 0, ResetClicked (), Frame 1]" and self = s1
            and c = "Frame 0" and s = SpringMassSystem_init and s' = s1] r d
  have "length (time_data s1) = length (velocity_data s1)" by blast
  with r d show ?thesis unfolding s1_def by simp
qed

subsection \<open>The cursor shows the nearest sample\<close>



subsection \<open>The spring geometry is a function of the position\<close>

text \<open>
  C7.  \<^verbatim>\<open>create_spring\<close> returns two sequences of 100 samples, for the parameter values
  \<open>t = i / 99\<close> with \<open>i = 0, \<dots>, 99\<close>, which run uniformly from 0 to 1: the abscissa
  is \<open>t * position\<close> and the ordinate is \<open>0.2 * sin (2 * pi * 6 * t)\<close>.  The result does
  not depend on the state of the object, only on the position.  For the position 0
  every abscissa is 0, and (for every position) every ordinate lies between -0.2 and
  0.2.
\<close>

theorem create_spring_geometry:
  "length (fst (create_spring self x)) = 100 \<and>
   length (snd (create_spring self x)) = 100 \<and>
   (\<forall>i<100. fst (create_spring self x) ! i = real i / 99 * x \<and>
             snd (create_spring self x) ! i = 0.2 * sin (2 * pi * 6 * (real i / 99))) \<and>
   create_spring self x = create_spring other x \<and>
   (\<forall>v\<in>set (fst (create_spring self 0)). v = 0) \<and>
   (\<forall>v\<in>set (snd (create_spring self x)). - 0.2 \<le> v \<and> v \<le> 0.2)"
proof -
  have nth: "\<forall>i<100. fst (create_spring self x) ! i = real i / 99 * x \<and>
             snd (create_spring self x) ! i = 0.2 * sin (2 * pi * 6 * (real i / 99))"
    using create_spring_nth by blast
  have pure: "create_spring self x = create_spring other x"
    by (simp add: create_spring_def)
  have zero: "\<forall>v\<in>set (fst (create_spring self 0)). v = 0"
    by (simp add: create_spring_def Let_def)
  have bound: "\<forall>v\<in>set (snd (create_spring self x)). - 0.2 \<le> v \<and> v \<le> 0.2"
  proof
    fix v assume "v \<in> set (snd (create_spring self x))"
    then obtain a where v: "v = 0.2 * sin a"
      by (auto simp add: create_spring_def Let_def)
    have "- 1 \<le> sin a" "sin a \<le> 1" by simp_all
    then show "- 0.2 \<le> v \<and> v \<le> 0.2" unfolding v by simp
  qed
  from create_spring_length[of self x] nth pure zero bound show ?thesis by blast
qed

theorem create_spring_geometry_witness:
  "fst (create_spring SpringMassSystem_init 3) ! 99 = 3 \<and>
   snd (create_spring SpringMassSystem_init 3) ! 0 = 0 \<and>
   fst (create_spring SpringMassSystem_init 0) ! 33 = 0 \<and>
   \<bar>snd (create_spring SpringMassSystem_init 0) ! 33\<bar> \<le> 0.2"
proof -
  note g3 = create_spring_geometry[of SpringMassSystem_init 3 SpringMassSystem_init]
  note g0 = create_spring_geometry[of SpringMassSystem_init 0 SpringMassSystem_init]
  from g3 have n3: "\<forall>i<100. fst (create_spring SpringMassSystem_init 3) ! i = real i / 99 * 3 \<and>
      snd (create_spring SpringMassSystem_init 3) ! i = 0.2 * sin (2 * pi * 6 * (real i / 99))"
    by blast
  from n3[rule_format, of 99] have a: "fst (create_spring SpringMassSystem_init 3) ! 99 = 3"
    by simp
  from n3[rule_format, of 0] have b: "snd (create_spring SpringMassSystem_init 3) ! 0 = 0"
    by simp
  from g0 have l1: "length (fst (create_spring SpringMassSystem_init 0)) = 100"
    and l2: "length (snd (create_spring SpringMassSystem_init 0)) = 100" by blast+
  have m1: "fst (create_spring SpringMassSystem_init 0) ! 33
      \<in> set (fst (create_spring SpringMassSystem_init 0))"
    by (rule nth_mem) (simp add: l1)
  have m2: "snd (create_spring SpringMassSystem_init 0) ! 33
      \<in> set (snd (create_spring SpringMassSystem_init 0))"
    by (rule nth_mem) (simp add: l2)
  from g0 m1 have c: "fst (create_spring SpringMassSystem_init 0) ! 33 = 0" by blast
  from g0 m2 have "- 0.2 \<le> snd (create_spring SpringMassSystem_init 0) ! 33 \<and>
      snd (create_spring SpringMassSystem_init 0) ! 33 \<le> 0.2" by blast
  then have d: "\<bar>snd (create_spring SpringMassSystem_init 0) ! 33\<bar> \<le> 0.2" by linarith
  from a b c d show ?thesis by blast
qed

subsection \<open>The elapsed time over consecutive frames\<close>

text \<open>
  C6 (as the code has it).  Take a new system (position 2.0, velocity 0, elapsed time
  0) and set a mass \<open>m > 0\<close>, a resilience \<open>k > 0\<close>, a damping \<open>c \<ge> 0\<close> and a time
  modifier \<open>ts > 0\<close>, all doubles.  Then any number of consecutive frames runs without
  an exception; each elapsed time is the rounded sum of the one before and the rounded
  product of the step 0.02 and \<open>ts\<close>; and the elapsed time never decreases.
\<close>

theorem animate64_elapsed_time:
  assumes "dlt (Fin 0) m" and "dlt (Fin 0) k" and "dle (Fin 0) c" and "dlt (Fin 0) ts"
  shows "\<exists>ss. animate64 n (update_time_modifier64 (update_damping64 (update_resilience64
                 (update_mass64 SpringMassSystem64_init m) k) c) ts) = Inr ss \<and>
           length ss = Suc n \<and>
           x_position64 (ss ! 0) = Fin 2.0 \<and> velocity64 (ss ! 0) = Fin 0 \<and>
           current_time64 (ss ! 0) = Fin 0 \<and>
           (\<forall>i<n. current_time64 (ss ! Suc i) =
                     dadd (current_time64 (ss ! i)) (dmul (rnd 0.02) ts) \<and>
                   dle (current_time64 (ss ! i)) (current_time64 (ss ! Suc i)))"
proof -
  define s0 where "s0 = update_time_modifier64 (update_damping64 (update_resilience64
                 (update_mass64 SpringMassSystem64_init m) k) c) ts"
  have f: "mass64 s0 = m" "dt64 s0 = rnd 0.02" "time_modifier64 s0 = ts"
    "current_time64 s0 = Fin 0" "x_position64 s0 = Fin 2.0" "velocity64 s0 = Fin 0"
    by (simp_all add: s0_def update_time_modifier64_def update_damping64_def
          update_resilience64_def update_mass64_def SpringMassSystem64_init_def
          default_x_pos_def)
  from assms(1) have "m \<noteq> Fin 0" by auto
  with f(1) have "mass64 s0 \<noteq> Fin 0" by simp
  from animate64_total[OF this, of n] obtain ss where ss: "animate64 n s0 = Inr ss" by blast
  have first: "ss ! 0 = s0" by (rule animate64_first[OF ss])
  have rec: "i < n \<Longrightarrow> current_time64 (ss ! Suc i) =
               dadd (current_time64 (ss ! i)) (dmul (rnd 0.02) ts)" for i
    using animate64_times(2)[OF ss, of i] f(2,3) by simp
  note e = step_nonneg[OF assms(4)]
  have good: "i \<le> n \<Longrightarrow> current_time64 (ss ! i) = PInf \<or>
               (\<exists>a. current_time64 (ss ! i) = Fin a \<and> 0 \<le> a \<and> fl a = a)" for i
  proof (induction i)
    case 0
    then show ?case using first f(4) by simp
  next
    case (Suc i)
    then have i: "i < n" and ih: "current_time64 (ss ! i) = PInf \<or>
               (\<exists>a. current_time64 (ss ! i) = Fin a \<and> 0 \<le> a \<and> fl a = a)" by simp_all
    from dadd_nonneg[OF ih e] rec[OF i] show ?case by simp
  qed
  have steps: "\<forall>i<n. current_time64 (ss ! Suc i) =
                     dadd (current_time64 (ss ! i)) (dmul (rnd 0.02) ts) \<and>
                   dle (current_time64 (ss ! i)) (current_time64 (ss ! Suc i))"
  proof (intro allI impI)
    fix i assume i: "i < n"
    then have "i \<le> n" by simp
    from dadd_nonneg[OF good[OF this] e] rec[OF i]
    show "current_time64 (ss ! Suc i) =
                     dadd (current_time64 (ss ! i)) (dmul (rnd 0.02) ts) \<and>
                   dle (current_time64 (ss ! i)) (current_time64 (ss ! Suc i))"
      by simp
  qed
  from first f have "x_position64 (ss ! 0) = Fin 2.0" "velocity64 (ss ! 0) = Fin 0"
    "current_time64 (ss ! 0) = Fin 0" by simp_all
  with ss animate64_length[OF ss] steps show ?thesis unfolding s0_def by blast
qed

theorem animate64_elapsed_time_witness:
  "dlt (Fin 0) (Fin 1) \<and> dlt (Fin 0) (Fin 10) \<and> dle (Fin 0) (Fin 0.5) \<and> dlt (Fin 0) (Fin 1) \<and>
   (\<exists>ss. animate64 3 (update_time_modifier64 (update_damping64 (update_resilience64
                 (update_mass64 SpringMassSystem64_init (Fin 1)) (Fin 10)) (Fin 0.5)) (Fin 1))
            = Inr ss \<and>
      length ss = 4 \<and> current_time64 (ss ! 0) = Fin 0 \<and>
      current_time64 (ss ! 1) = Fin (5764607523034235 / 2 ^ 58) \<and>
      current_time64 (ss ! 2) = Fin (5764607523034235 / 2 ^ 57) \<and>
      current_time64 (ss ! 3) = Fin (8646911284551352 / 2 ^ 57) \<and>
      dle (current_time64 (ss ! 2)) (current_time64 (ss ! 3)))"
proof -
  have h: "dlt (Fin 0) (Fin 1)" "dlt (Fin 0) (Fin 10)" "dle (Fin 0) (Fin 0.5)" by simp_all
  from animate64_elapsed_time[OF h(1) h(2) h(3) h(1), of 3] obtain ss where
    ss: "animate64 3 (update_time_modifier64 (update_damping64 (update_resilience64
                 (update_mass64 SpringMassSystem64_init (Fin 1)) (Fin 10)) (Fin 0.5)) (Fin 1))
            = Inr ss"
    and len: "length ss = Suc 3" and t0: "current_time64 (ss ! 0) = Fin 0"
    and st: "\<forall>i<3. current_time64 (ss ! Suc i) =
                     dadd (current_time64 (ss ! i)) (dmul (rnd 0.02) (Fin 1)) \<and>
                   dle (current_time64 (ss ! i)) (current_time64 (ss ! Suc i))"
    by blast
  have e: "dmul (rnd 0.02) (Fin 1) = Fin (5764607523034235 / 2 ^ 58)"
    unfolding rnd_dt step_default ..
  have t1: "current_time64 (ss ! 1) = Fin (5764607523034235 / 2 ^ 58)"
    using st[rule_format, of 0] unfolding e t0 time_1 by simp
  have t2: "current_time64 (ss ! 2) = Fin (5764607523034235 / 2 ^ 57)"
    using st[rule_format, of 1] t1 unfolding e time_2[symmetric] by (simp add: eval_nat_numeral)
  have t3: "current_time64 (ss ! 3) = Fin (8646911284551352 / 2 ^ 57)"
    using st[rule_format, of 2] t2 unfolding e time_3[symmetric] by (simp add: eval_nat_numeral)
  have s3: "Suc 2 = 3" by simp
  have "(2::nat) < 3" by simp
  from st[rule_format, OF this]
  have "dle (current_time64 (ss ! 2)) (current_time64 (ss ! Suc 2))" by (rule conjunct2)
  then have le: "dle (current_time64 (ss ! 2)) (current_time64 (ss ! 3))" unfolding s3 .
  from len have "length ss = 4" by simp
  with h ss t0 t1 t2 t3 le show ?thesis by blast
qed

text \<open>
  The counterexample to C6 as stated.  In the run with the default parameters the
  elapsed times after the second and third frame differ by less than the effective
  step, which is neither 0.02 nor its double: the third addition rounds down.  And
  with the positive time modifier \<open>2 powi (- 1073)\<close> the effective step rounds to 0, so
  the elapsed time after the first frame is 0 again and has not increased.
\<close>

theorem elapsed_time_exact_step_counterexample:
  "\<not> isl (animate64 3 SpringMassSystem64_init) \<and>
   map current_time64 (projr (animate64 3 SpringMassSystem64_init)) =
     [Fin 0, Fin (5764607523034235 / 2 ^ 58), Fin (5764607523034235 / 2 ^ 57),
      Fin (8646911284551352 / 2 ^ 57)] \<and>
   dmul (dt64 SpringMassSystem64_init) (time_modifier64 SpringMassSystem64_init) =
     Fin (5764607523034235 / 2 ^ 58) \<and>
   (8646911284551352 / 2 ^ 57 - 5764607523034235 / 2 ^ 57 :: real) \<noteq> 5764607523034235 / 2 ^ 58 \<and>
   (8646911284551352 / 2 ^ 57 - 5764607523034235 / 2 ^ 57 :: real) \<noteq> 0.02 * 1 \<and>
   dlt (Fin 0) (Fin (2 powi (- 1073))) \<and>
   \<not> isl (animate64 1 (update_time_modifier64 SpringMassSystem64_init (Fin (2 powi (- 1073))))) \<and>
   map current_time64
     (projr (animate64 1 (update_time_modifier64 SpringMassSystem64_init (Fin (2 powi (- 1073))))))
     = [Fin 0, Fin 0] \<and>
   \<not> dlt (Fin 0) (Fin 0)"
proof -
  from default_run64 obtain ss where ss: "animate64 3 SpringMassSystem64_init = Inr ss"
    and t: "map current_time64 ss =
       [Fin 0, Fin (5764607523034235 / 2 ^ 58), Fin (5764607523034235 / 2 ^ 57),
        Fin (8646911284551352 / 2 ^ 57)]" by (elim exE conjE) (rule that)
  from tiny_run64 obtain zs where
    zs: "animate64 1 (update_time_modifier64 SpringMassSystem64_init (Fin (2 powi (- 1073))))
           = Inr zs"
    and z: "map current_time64 zs = [Fin 0, Fin 0]" by (elim exE conjE) (rule that)
  have e: "dmul (dt64 SpringMassSystem64_init) (time_modifier64 SpringMassSystem64_init) =
     Fin (5764607523034235 / 2 ^ 58)"
    unfolding SpringMassSystem64_init_def rnd_dt using step_default by simp
  have n1: "(8646911284551352 / 2 ^ 57 - 5764607523034235 / 2 ^ 57 :: real)
      \<noteq> 5764607523034235 / 2 ^ 58" by simp
  have n2: "(8646911284551352 / 2 ^ 57 - 5764607523034235 / 2 ^ 57 :: real) \<noteq> 0.02 * 1"
    by simp
  have p: "dlt (Fin 0) (Fin (2 powi (- 1073)))" by simp
  have q: "\<not> dlt (Fin 0) (Fin 0)" by simp
  from ss t zs z e n1 n2 p q show ?thesis by simp
qed

subsection \<open>The history is bounded, ordered and a sliding window\<close>



end
